theory Spec2Isabelle
  imports Main "HOL-Library.Sublist"
begin

section \<open>JavaScript strings\<close>

text \<open>
  A JavaScript string is a sequence of UTF-16 code units. The model keeps the code units
  below 256, which are the characters of Isabelle's \<open>string\<close>; it is exact on ASCII and
  Latin-1 text. Indices count code units from 0, as in JavaScript.
\<close>

definition is_word_char :: "char \<Rightarrow> bool" where
  \<comment> \<open>the class \<open>\w\<close> of a regular expression without the \<open>u\<close> and \<open>i\<close> flags: \<open>[A-Za-z0-9_]\<close>\<close>
  "is_word_char c =
     (let n = (of_char c :: nat)
      in (48 \<le> n \<and> n \<le> 57) \<or> (65 \<le> n \<and> n \<le> 90) \<or> n = 95 \<or> (97 \<le> n \<and> n \<le> 122))"

definition is_js_space :: "char \<Rightarrow> bool" where
  \<comment> \<open>the code units below 256 that \<open>String.prototype.trim\<close> removes: TAB, LF, VT, FF, CR,
      SPACE and NO-BREAK SPACE\<close>
  "is_js_space c =
     (let n = (of_char c :: nat) in (9 \<le> n \<and> n \<le> 13) \<or> n = 32 \<or> n = 160)"

definition trim :: "string \<Rightarrow> string" where
  "trim s = rev (dropWhile is_js_space (rev (dropWhile is_js_space s)))"

definition slice :: "string \<Rightarrow> nat \<Rightarrow> nat \<Rightarrow> string" where
  \<comment> \<open>\<open>s.slice(i, j)\<close> for non-negative integers \<open>i\<close> and \<open>j\<close>\<close>
  "slice s i j = take (j - i) (drop i s)"

definition js_or :: "string option \<Rightarrow> string \<Rightarrow> string" where
  \<comment> \<open>\<open>v || d\<close> for \<open>v\<close> a string or \<open>undefined\<close> (\<open>None\<close>): the empty string is falsy too\<close>
  "js_or v d = (case v of None \<Rightarrow> d | Some s \<Rightarrow> if s = [] then d else s)"

fun split_on :: "char \<Rightarrow> string \<Rightarrow> string list" where
  \<comment> \<open>\<open>s.split(sep)\<close> for a separator of one character, built from the end of the string;
      the result is never the empty array, so the last case is never taken\<close>
  "split_on sep [] = [[]]"
| "split_on sep (c # cs) =
     (case split_on sep cs of
        l # ls \<Rightarrow> if c = sep then [] # l # ls else (c # l) # ls
      | [] \<Rightarrow> [[c]])"

fun join :: "string \<Rightarrow> string list \<Rightarrow> string" where
  \<comment> \<open>\<open>xs.join(sep)\<close> for an array of strings\<close>
  "join sep [] = []"
| "join sep [x] = x"
| "join sep (x # y # ys) = x @ sep @ join sep (y # ys)"

definition array_slice0 :: "'a list \<Rightarrow> int \<Rightarrow> 'a list" where
  \<comment> \<open>\<open>xs.slice(0, end)\<close> for an integer \<open>end\<close>: a negative end counts from the end of the
      array, and both bounds are clamped to the array\<close>
  "array_slice0 xs end =
     (if end < 0 then take (nat (int (length xs) + end)) xs else take (nat end) xs)"

definition lower_char :: "char \<Rightarrow> char" where
  \<comment> \<open>the lower-case mapping of the code units below 256: A to Z, and the Latin-1 capitals
      (U+00C0 to U+00DE without the multiplication sign U+00D7)\<close>
  "lower_char c =
     (let n = (of_char c :: nat)
      in if (65 \<le> n \<and> n \<le> 90) \<or> (192 \<le> n \<and> n \<le> 222 \<and> n \<noteq> 215)
         then char_of (n + 32) else c)"

definition toLowerCase :: "string \<Rightarrow> string" where
  "toLowerCase s = map lower_char s"

section \<open>The code optimizer: language detection and truncation\<close>

text \<open>
  \<open>languageMap\<close> is an object literal, so reading \<open>languageMap[key]\<close> first looks for an own
  property and then follows the prototype chain to \<open>Object.prototype\<close>. An own property
  is one of the listed language names; an inherited one is a built-in function or object.
\<close>

datatype lang_value =
  Language string
  | Inherited string

definition languageMap :: "(string \<times> string) list" where
  "languageMap =
     [(''js'', ''javascript''), (''jsx'', ''jsx''), (''ts'', ''typescript''), (''tsx'', ''tsx''),
      (''py'', ''python''), (''rb'', ''ruby''), (''go'', ''go''), (''rs'', ''rust''),
      (''java'', ''java''), (''cpp'', ''cpp''), (''c'', ''c''), (''cs'', ''csharp''),
      (''php'', ''php''), (''swift'', ''swift''), (''kt'', ''kotlin''), (''scala'', ''scala''),
      (''r'', ''r''), (''m'', ''objectivec''), (''pl'', ''perl''), (''lua'', ''lua''),
      (''dart'', ''dart''), (''sql'', ''sql''), (''sh'', ''bash''), (''bash'', ''bash''),
      (''zsh'', ''bash''), (''fish'', ''bash''), (''ps1'', ''powershell''),
      (''psm1'', ''powershell''), (''json'', ''json''), (''xml'', ''xml''), (''yml'', ''yaml''),
      (''yaml'', ''yaml''), (''toml'', ''toml''), (''ini'', ''ini''), (''cfg'', ''ini''),
      (''conf'', ''ini''), (''md'', ''markdown''), (''mdx'', ''markdown''), (''css'', ''css''),
      (''scss'', ''scss''), (''sass'', ''sass''), (''less'', ''less''), (''html'', ''html''),
      (''vue'', ''vue''), (''svelte'', ''svelte'')]"

definition object_prototype :: "(string \<times> string) list" where
  \<comment> \<open>the properties of \<open>Object.prototype\<close>, each with a name for the built-in function or
      object it holds; \<open>__proto__\<close> reads the prototype of the object, \<open>Object.prototype\<close> itself\<close>
  "object_prototype =
     [(''constructor'', ''Object''),
      (''__defineGetter__'', ''Object.prototype.__defineGetter__''),
      (''__defineSetter__'', ''Object.prototype.__defineSetter__''),
      (''hasOwnProperty'', ''Object.prototype.hasOwnProperty''),
      (''__lookupGetter__'', ''Object.prototype.__lookupGetter__''),
      (''__lookupSetter__'', ''Object.prototype.__lookupSetter__''),
      (''isPrototypeOf'', ''Object.prototype.isPrototypeOf''),
      (''propertyIsEnumerable'', ''Object.prototype.propertyIsEnumerable''),
      (''toString'', ''Object.prototype.toString''),
      (''valueOf'', ''Object.prototype.valueOf''),
      (''__proto__'', ''Object.prototype''),
      (''toLocaleString'', ''Object.prototype.toLocaleString'')]"

definition languageMap_get :: "string \<Rightarrow> lang_value option" where
  \<comment> \<open>\<open>languageMap[key]\<close>; \<open>None\<close> is \<open>undefined\<close>\<close>
  "languageMap_get key =
     (case map_of languageMap key of
        Some l \<Rightarrow> Some (Language l)
      | None \<Rightarrow> map_option Inherited (map_of object_prototype key))"

definition lang_truthy :: "lang_value option \<Rightarrow> bool" where
  \<comment> \<open>a string is truthy unless empty; a function or an object is truthy\<close>
  "lang_truthy v =
     (case v of None \<Rightarrow> False | Some (Language l) \<Rightarrow> l \<noteq> [] | Some (Inherited _) \<Rightarrow> True)"

definition detectLanguage :: "string \<Rightarrow> lang_value option" where
  "detectLanguage filename =
     (let ext = toLowerCase (last (split_on (CHR ''.'') filename));
          v = languageMap_get (js_or (Some ext) [])
      in if lang_truthy v then v else None)"

record TruncateResult =
  content :: string
  truncated :: bool
  totalLines :: nat

definition truncateLargeFile :: "string \<Rightarrow> int option \<Rightarrow> TruncateResult" where
  \<comment> \<open>the second argument is \<open>maxLines\<close>, an integer, or \<open>None\<close> when the caller leaves it out\<close>
  "truncateLargeFile str arg =
     (let maxLines = (case arg of None \<Rightarrow> 1000 | Some n \<Rightarrow> n);
          lines = split_on (CHR 0x0A) str;
          total = length lines
      in if int total \<le> maxLines
         then \<lparr>content = str, truncated = False, totalLines = total\<rparr>
         else \<lparr>content = join [CHR 0x0A] (array_slice0 lines maxLines), truncated = True,
               totalLines = total\<rparr>)"

section \<open>JavaScript values and the API client\<close>

text \<open>
  The values that \<open>JSON.parse\<close> and \<open>response.json()\<close> produce, and \<open>undefined\<close>. A number
  is kept as its canonical decimal text (what \<open>String(n)\<close> gives: \<open>0\<close>, \<open>42\<close>, \<open>1.5\<close>), which
  fixes the number up to the sign of zero. An object is the list of its own properties, each
  key once.
\<close>

datatype js_value =
  JUndefined
  | JNull
  | JBool bool
  | JNum string
  | JStr string
  | JArr "js_value list"
  | JObj "(string \<times> js_value) list"

fun truthy :: "js_value \<Rightarrow> bool" where
  "truthy JUndefined = False"
| "truthy JNull = False"
| "truthy (JBool b) = b"
| "truthy (JNum n) = (n \<noteq> ''0'' \<and> n \<noteq> ''NaN'')"
| "truthy (JStr s) = (s \<noteq> [])"
| "truthy (JArr vs) = True"
| "truthy (JObj kvs) = True"

fun to_string :: "js_value \<Rightarrow> string"
  and elements_to_string :: "js_value list \<Rightarrow> string list" where
  \<comment> \<open>the conversion to a string that \<open>+=\<close> on a string and \<open>new Error(v)\<close> apply; an array
      joins its elements with commas, \<open>null\<close> and \<open>undefined\<close> elements giving nothing\<close>
  "to_string JUndefined = ''undefined''"
| "to_string JNull = ''null''"
| "to_string (JBool b) = (if b then ''true'' else ''false'')"
| "to_string (JNum n) = n"
| "to_string (JStr s) = s"
| "to_string (JArr vs) = join '','' (elements_to_string vs)"
| "to_string (JObj kvs) = ''[object Object]''"
| "elements_to_string [] = []"
| "elements_to_string (v # vs) =
     (case v of JUndefined \<Rightarrow> [] | JNull \<Rightarrow> [] | _ \<Rightarrow> to_string v) # elements_to_string vs"

fun get_prop :: "js_value \<Rightarrow> string \<Rightarrow> js_value option" where
  \<comment> \<open>\<open>v.key\<close> for the keys this program reads (\<open>content\<close>, \<open>done\<close>, \<open>detail\<close>), which no
      built-in prototype defines: an own property or \<open>undefined\<close>. \<open>None\<close> is the TypeError
      that reading a property of \<open>null\<close> or \<open>undefined\<close> throws.\<close>
  "get_prop JUndefined key = None"
| "get_prop JNull key = None"
| "get_prop (JObj kvs) key = Some (case map_of kvs key of None \<Rightarrow> JUndefined | Some v \<Rightarrow> v)"
| "get_prop v key = Some JUndefined"




section \<open>The code-block pattern of the chat interface\<close>

text \<open>
  \<^verbatim>\<open>/```(\w+)?\n(.*?)```/gs\<close>: three backquotes, an optional greedy run of word
  characters (group 1), a line feed, the shortest text (group 2; with the flag \<open>s\<close> the dot
  matches every code unit) that is followed by three backquotes.
\<close>

definition fence :: string where
  "fence = [CHR 0x60, CHR 0x60, CHR 0x60]"

fun lazy_body :: "string \<Rightarrow> (string \<times> string) option" where
  \<comment> \<open>\<open>(.*?)```\<close> at the start of the text: the body and what follows the closing fence\<close>
  "lazy_body [] = None"
| "lazy_body (c # cs) =
     (if prefix fence (c # cs) then Some ([], drop 3 (c # cs))
      else map_option (\<lambda>(b, r). (c # b, r)) (lazy_body cs))"

definition match_here :: "string \<Rightarrow> (string \<times> string option \<times> string) option" where
  \<comment> \<open>the pattern matched at the start of the text: \<open>match[0]\<close>, \<open>match[1]\<close> (\<open>None\<close> when the
      group took no part), \<open>match[2]\<close>. A shorter run of word characters is followed by a
      word character, never by the line feed, so backtracking into group 1 finds nothing.\<close>
  "match_here s =
     (if prefix fence s then
        (let t = drop 3 s; w = takeWhile is_word_char t
         in case dropWhile is_word_char t of
              [] \<Rightarrow> None
            | c # r \<Rightarrow>
                if c = CHR 0x0A then
                  (case lazy_body r of
                     None \<Rightarrow> None
                   | Some (b, _) \<Rightarrow>
                       Some (fence @ w @ [c] @ b @ fence, if w = [] then None else Some w, b))
                else None)
      else None)"

fun search :: "string \<Rightarrow> (nat \<times> string \<times> string option \<times> string) option" where
  \<comment> \<open>the leftmost position of the text where the pattern matches, and the match there\<close>
  "search [] = None"
| "search (c # cs) =
     (case match_here (c # cs) of
        Some m \<Rightarrow> Some (0, m)
      | None \<Rightarrow> map_option (\<lambda>(k, m). (Suc k, m)) (search cs))"

record RegExpMatch =
  index :: nat
  match0 :: string
  group1 :: "string option"
  group2 :: string

definition exec :: "string \<Rightarrow> nat \<Rightarrow> RegExpMatch option" where
  \<comment> \<open>\<open>pattern.exec(content)\<close> of a global pattern whose \<open>lastIndex\<close> is the second argument;
      after a match the pattern's \<open>lastIndex\<close> is \<open>index + match[0].length\<close>\<close>
  "exec str lastIndex =
     (if length str < lastIndex then None
      else case search (drop lastIndex str) of
             None \<Rightarrow> None
           | Some (k, m0, g1, g2) \<Rightarrow>
               Some \<lparr>index = lastIndex + k, match0 = m0, group1 = g1, group2 = g2\<rparr>)"

section \<open>Code-block extraction and message rendering\<close>

record CodeBlock =
  language :: string
  code :: string

datatype role = User | Assistant | System

record ChatMessage =
  msg_id :: string
  session_id :: string
  role :: role
  content :: string
  file_references :: "string list option"
  code_blocks :: "CodeBlock list option"
  token_count :: "nat option"
  created_at :: string

lemma lazy_body_Some:
  "lazy_body s = Some (b, r) \<Longrightarrow> s = b @ fence @ r"
proof (induction s arbitrary: b)
  case Nil
  then show ?case by simp
next
  case (Cons c cs)
  show ?case
  proof (cases "prefix fence (c # cs)")
    case True
    with Cons.prems have "b = []" and "r = drop 3 (c # cs)" by simp_all
    moreover from True have "c # cs = fence @ drop 3 (c # cs)"
      by (auto simp: prefix_def fence_def)
    ultimately show ?thesis by simp
  next
    case False
    with Cons.prems obtain b' where "lazy_body cs = Some (b', r)" and "b = c # b'"
      by auto
    with Cons.IH show ?thesis by simp
  qed
qed

lemma match_here_Some:
  assumes "match_here s = Some (m0, g1, g2)"
  shows "prefix m0 s" and "7 \<le> length m0"
proof -
  from assms have pf: "prefix fence s"
    by (simp add: match_here_def split: if_splits)
  define t where "t = drop 3 s"
  from pf have s: "s = fence @ t"
    by (auto simp: prefix_def fence_def t_def)
  from assms pf obtain r b r' where
    dw: "dropWhile is_word_char t = CHR 0x0A # r" and
    lb: "lazy_body r = Some (b, r')" and
    m0: "m0 = fence @ takeWhile is_word_char t @ [CHR 0x0A] @ b @ fence"
    by (auto simp: match_here_def Let_def t_def split: list.splits if_splits option.splits)
  have "t = takeWhile is_word_char t @ dropWhile is_word_char t" by simp
  with dw lb have "t = takeWhile is_word_char t @ [CHR 0x0A] @ b @ fence @ r'"
    using lazy_body_Some [OF lb] by simp
  with s m0 have "s = m0 @ r'" by simp
  then show "prefix m0 s" by (simp add: prefix_def)
  from m0 show "7 \<le> length m0" by (simp add: fence_def)
qed

lemma search_Some:
  "search s = Some (k, m0, g1, g2) \<Longrightarrow> k + length m0 \<le> length s \<and> 7 \<le> length m0"
proof (induction s arbitrary: k)
  case Nil
  then show ?case by simp
next
  case (Cons c cs)
  show ?case
  proof (cases "match_here (c # cs)")
    case (Some m)
    with Cons.prems have k: "k = 0" and m: "m = (m0, g1, g2)" by simp_all
    from Some m have "prefix m0 (c # cs)" and "7 \<le> length m0"
      using match_here_Some by blast+
    with k show ?thesis by (auto dest: prefix_length_le)
  next
    case None
    with Cons.prems obtain k' where "search cs = Some (k', m0, g1, g2)" and "k = Suc k'"
      by auto
    with Cons.IH show ?thesis by fastforce
  qed
qed

lemma exec_Some:
  assumes "exec str lastIndex = Some m"
  shows "lastIndex \<le> index m" and "index m + length (match0 m) \<le> length str"
    and "7 \<le> length (match0 m)"
proof -
  from assms obtain k m0 g1 g2 where
    le: "lastIndex \<le> length str" and
    se: "search (drop lastIndex str) = Some (k, m0, g1, g2)" and
    m: "m = \<lparr>index = lastIndex + k, match0 = m0, group1 = g1, group2 = g2\<rparr>"
    by (auto simp: exec_def split: if_splits option.splits)
  from search_Some [OF se] le m
  show "lastIndex \<le> index m" and "index m + length (match0 m) \<le> length str"
    and "7 \<le> length (match0 m)"
    by auto
qed

function extract_loop :: "string \<Rightarrow> nat \<Rightarrow> CodeBlock list \<Rightarrow> CodeBlock list" where
  \<comment> \<open>the \<open>while\<close> loop of \<open>extractCodeBlocks\<close>; the second argument is \<open>pattern.lastIndex\<close>\<close>
  "extract_loop str lastIndex blocks =
     (case exec str lastIndex of
        None \<Rightarrow> blocks
      | Some m \<Rightarrow>
          extract_loop str (index m + length (match0 m))
            (blocks @ [\<lparr>language = js_or (group1 m) ''plaintext'', code = trim (group2 m)\<rparr>]))"
  by pat_completeness auto
termination
proof (relation "measure (\<lambda>(str, lastIndex, blocks). Suc (length str) - lastIndex)")
  show "wf (measure (\<lambda>(str, lastIndex, blocks). Suc (length str) - lastIndex))" by simp
next
  fix str :: string and lastIndex :: nat and blocks :: "CodeBlock list" and m
  assume "exec str lastIndex = Some m"
  from exec_Some [OF this]
  show "((str, index m + length (match0 m),
          blocks @ [\<lparr>language = js_or (group1 m) ''plaintext'', code = trim (group2 m)\<rparr>]),
         (str, lastIndex, blocks))
        \<in> measure (\<lambda>(str, lastIndex, blocks). Suc (length str) - lastIndex)"
    by simp
qed

declare extract_loop.simps [simp del]

definition extractCodeBlocks :: "string \<Rightarrow> CodeBlock list" where
  "extractCodeBlocks str = extract_loop str 0 []"

datatype part =
  TextPart nat string
  | CodePart nat string string

function render_loop ::
  "string \<Rightarrow> nat \<Rightarrow> nat \<Rightarrow> nat \<Rightarrow> part list \<Rightarrow> part list \<times> nat" where
  \<comment> \<open>the \<open>while\<close> loop of \<open>renderMessageContent\<close> over \<open>message.content\<close>; the arguments after
      the text are \<open>codeBlockPattern.lastIndex\<close>, \<open>lastIndex\<close>, \<open>blockIndex\<close> and \<open>parts\<close>;
      the result is \<open>parts\<close> and \<open>lastIndex\<close> when the loop ends\<close>
  "render_loop str reLastIndex lastIndex blockIndex parts =
     (case exec str reLastIndex of
        None \<Rightarrow> (parts, lastIndex)
      | Some m \<Rightarrow>
          (let parts1 =
                 (if lastIndex < index m
                  then parts @ [TextPart lastIndex (slice str lastIndex (index m))]
                  else parts);
               lang = js_or (group1 m) ''plaintext'';
               body = trim (group2 m);
               currentBlockIndex = blockIndex
           in render_loop str (index m + length (match0 m)) (index m + length (match0 m))
                (Suc blockIndex) (parts1 @ [CodePart currentBlockIndex lang body])))"
  by pat_completeness auto
termination
proof (relation "measure (\<lambda>(str, reLastIndex, lastIndex, blockIndex, parts).
                            Suc (length str) - reLastIndex)")
  show "wf (measure (\<lambda>(str, reLastIndex, lastIndex, blockIndex, parts).
                       Suc (length str) - reLastIndex))"
    by simp
next
  fix str :: string and reLastIndex lastIndex blockIndex :: nat and parts :: "part list"
    and m x xa xb xc
  assume "exec str reLastIndex = Some m"
  from exec_Some [OF this]
  show "((str, index m + length (match0 m), index m + length (match0 m), Suc blockIndex,
          x @ [CodePart xc xa xb]),
         (str, reLastIndex, lastIndex, blockIndex, parts))
        \<in> measure (\<lambda>(str, reLastIndex, lastIndex, blockIndex, parts).
                      Suc (length str) - reLastIndex)"
    by simp
qed

declare render_loop.simps [simp del]

definition renderMessageContent :: "ChatMessage \<Rightarrow> part list" where
  "renderMessageContent message =
     (case render_loop (content message) 0 0 0 [] of
        (parts, lastIndex) \<Rightarrow>
          if lastIndex < length (content message)
          then parts @ [TextPart lastIndex (drop lastIndex (content message))]
          else parts)"

fun rendered_code_blocks :: "part list \<Rightarrow> CodeBlock list" where
  \<comment> \<open>the language and the code of the code blocks among the rendered parts, in order\<close>
  "rendered_code_blocks [] = []"
| "rendered_code_blocks (TextPart k t # ps) = rendered_code_blocks ps"
| "rendered_code_blocks (CodePart k l c # ps) =
     \<lparr>language = l, code = c\<rparr> # rendered_code_blocks ps"

section \<open>Sending a message and reading the streamed answer\<close>

text \<open>
  The component state that \<open>sendMessage\<close> reads and writes, with the toasts shown so far.
  Every toast of the component is the destructive one titled "error"; they differ in the
  description, which names the action that failed. A functional update
  \<open>setMessages(prev => ...)\<close> is applied to the state where the source calls it, so the
  updates take effect in the order of the calls.
\<close>

datatype toast = SessionsLoadFailed | MessagesLoadFailed | NewChatFailed | SendFailed

record ChatState =
  messages :: "ChatMessage list"
  input :: string
  isLoading :: bool
  isSending :: bool
  currentSessionId :: "string option"
  toasts :: "toast list"

text \<open>
  What the network does during one call: \<open>chatApi.streamMessage\<close> rejects, or resolves to a
  response without a body, or to a response whose reader yields the decoded chunks and then
  reports the end of the stream or rejects a read.
\<close>

datatype stream_end = EndOfStream | ReadFailed

datatype fetch_outcome =
  FetchRejected
  | NoBody
  | Body "string list" stream_end

definition process_line ::
  "(string \<Rightarrow> js_value option) \<Rightarrow> string \<Rightarrow> ChatMessage \<times> ChatMessage list \<Rightarrow>
   ChatMessage \<times> ChatMessage list" where
  \<comment> \<open>the body of the \<open>for\<close> loop on \<open>assistantMessage\<close> and the message list; the first
      argument is \<open>JSON.parse\<close>, \<open>None\<close> where it throws. An error thrown inside the \<open>try\<close> is
      ignored, what was done before it stays.\<close>
  "process_line parse line s =
     (case s of (assistantMessage, msgs) \<Rightarrow>
        if prefix ''data: '' line then
          (case parse (drop 6 line) of
             None \<Rightarrow> s
           | Some data \<Rightarrow>
               (case get_prop data ''content'' of
                  None \<Rightarrow> s
                | Some c \<Rightarrow>
                    (let s1 =
                           (if truthy c then
                              (let am = assistantMessage
                                     \<lparr>content := content assistantMessage @ to_string c\<rparr>
                               in (am, map (\<lambda>m. if msg_id m = ''temp-assistant'' then am else m) msgs))
                            else s)
                     in case get_prop data ''done'' of
                          None \<Rightarrow> s1
                        | Some d \<Rightarrow>
                            if truthy d then
                              (fst s1\<lparr>code_blocks := Some (extractCodeBlocks (content (fst s1)))\<rparr>,
                               snd s1)
                            else s1)))
        else s)"

fun read_loop ::
  "(string \<Rightarrow> js_value option) \<Rightarrow> string list \<Rightarrow> string \<Rightarrow> ChatMessage \<times> ChatMessage list \<Rightarrow>
   ChatMessage \<times> ChatMessage list" where
  \<comment> \<open>the \<open>while (true)\<close> loop over the chunks that \<open>reader.read()\<close> yields before it is done:
      the arguments are the chunks still to come, \<open>buffer\<close>, and \<open>assistantMessage\<close> with the
      message list\<close>
  "read_loop parse [] buffer s = s"
| "read_loop parse (v # chunks) buffer s =
     (let buffer1 = buffer @ v;
          lines = split_on (CHR 0x0A) buffer1;
          buffer2 = js_or (Some (last lines)) []
      in read_loop parse chunks buffer2
           (foldl (\<lambda>s line. process_line parse line s) s (butlast lines)))"

definition loadMessages :: "ChatMessage list option \<Rightarrow> ChatState \<Rightarrow> ChatState" where
  \<comment> \<open>the first argument is what \<open>chatApi.getSession\<close> resolves to, \<open>None\<close> when it rejects\<close>
  "loadMessages session st =
     (let st1 = st\<lparr>isLoading := True\<rparr>;
          st2 = (case session of
                   Some msgs \<Rightarrow> st1\<lparr>messages := msgs\<rparr>
                 | None \<Rightarrow> st1\<lparr>toasts := toasts st1 @ [MessagesLoadFailed]\<rparr>)
      in st2\<lparr>isLoading := False\<rparr>)"

definition catch_handler :: "ChatState \<Rightarrow> ChatState" where
  \<comment> \<open>the \<open>catch\<close> block of \<open>sendMessage\<close>; it does not look at the error it caught\<close>
  "catch_handler st =
     st\<lparr>toasts := toasts st @ [SendFailed],
        messages := filter (\<lambda>m. \<not> prefix ''temp-'' (msg_id m)) (messages st)\<rparr>"

definition sendMessage ::
  "(string \<Rightarrow> js_value option) \<Rightarrow> string \<Rightarrow> string \<Rightarrow> fetch_outcome \<Rightarrow>
   ChatMessage list option \<Rightarrow> ChatState \<Rightarrow> ChatState" where
  \<comment> \<open>the arguments are \<open>JSON.parse\<close>, the two readings of the clock, what the network does
      and what reloading the session gives\<close>
  "sendMessage parse now1 now2 fetch session st =
     (if trim (input st) = [] \<or> js_or (currentSessionId st) [] = [] \<or> isSending st then st
      else
        (let messageContent = trim (input st);
             sid = the (currentSessionId st);
             st1 = st\<lparr>input := [], isSending := True\<rparr>;
             tempUserMessage =
               \<lparr>msg_id = ''temp-user'', session_id = sid, role = User,
                content = messageContent, file_references = None, code_blocks = None,
                token_count = None, created_at = now1\<rparr>;
             st2 = st1\<lparr>messages := messages st1 @ [tempUserMessage]\<rparr>;
             assistantMessage =
               \<lparr>msg_id = ''temp-assistant'', session_id = sid, role = Assistant,
                content = [], file_references = None, code_blocks = None,
                token_count = None, created_at = now2\<rparr>;
             st3 = st2\<lparr>messages :=
                     filter (\<lambda>m. msg_id m \<noteq> ''temp-user'') (messages st2)
                       @ [tempUserMessage, assistantMessage]\<rparr>;
             st4 =
               (case fetch of
                  FetchRejected \<Rightarrow> catch_handler st2
                | NoBody \<Rightarrow> catch_handler st3
                | Body chunks ending \<Rightarrow>
                    (let st5 = st3\<lparr>messages :=
                            snd (read_loop parse chunks [] (assistantMessage, messages st3))\<rparr>
                     in case ending of
                          ReadFailed \<Rightarrow> catch_handler st5
                        | EndOfStream \<Rightarrow> loadMessages session st5))
         in st4\<lparr>isSending := False\<rparr>))"




function matches :: "string \<Rightarrow> nat \<Rightarrow> RegExpMatch list" where
  \<comment> \<open>the successive values of \<open>match\<close> in the two loops, from a given \<open>lastIndex\<close> on\<close>
  "matches str lastIndex =
     (case exec str lastIndex of
        None \<Rightarrow> []
      | Some m \<Rightarrow> m # matches str (index m + length (match0 m)))"
  by pat_completeness auto
termination
proof (relation "measure (\<lambda>(str, lastIndex). Suc (length str) - lastIndex)")
  show "wf (measure (\<lambda>(str, lastIndex). Suc (length str) - lastIndex))" by simp
next
  fix str :: string and lastIndex :: nat and m
  assume "exec str lastIndex = Some m"
  from exec_Some [OF this]
  show "((str, index m + length (match0 m)), (str, lastIndex))
        \<in> measure (\<lambda>(str, lastIndex). Suc (length str) - lastIndex)"
    by simp
qed

declare matches.simps [simp del]

definition starts_with_space :: "string \<Rightarrow> bool" where
  "starts_with_space s = (case s of [] \<Rightarrow> False | c # _ \<Rightarrow> is_js_space c)"

definition ends_with_space :: "string \<Rightarrow> bool" where
  "ends_with_space s = starts_with_space (rev s)"




text \<open>
  \<open>JSON.parse\<close> on the one payload that the examples below send; the examples give it no
  other text. A chat state in which a message is ready to be sent.
\<close>

definition parse_hi :: "string \<Rightarrow> js_value option" where
  \<open>parse_hi s =
     (if s = ''{"content":"hi"}'' then Some (JObj [(''content'', JStr ''hi'')]) else None)\<close>

definition st0 :: ChatState where
  "st0 = \<lparr>messages = [], input = ''hello'', isLoading = False, isSending = False,
          currentSessionId = Some ''s1'', toasts = []\<rparr>"

section \<open>The file tree manager and the quota enforcer\<close>

text \<open>
  Modelled from the spec: the file tree manager and the quota enforcer run on the server,
  and the server's code is not among the sources; the client reaches them only through
  \<open>filesApi\<close>. This section follows sections 3, 4.1, 4.2 and 6 of the specification. A
  project is its two limits and its flat list of entries. The \<open>path\<close> of an entry is its
  normalized path, kept as the list of its segments: \<open>/src/a.py\<close> is \<open>[src, a.py]\<close>.
\<close>

datatype file_type = File | Directory

record ProjectFile =
  file_id :: nat
  parent_id :: "nat option"
  name :: string
  path :: "string list"
  ftype :: file_type
  file_content :: "string option"
  size_bytes :: nat

record Project =
  max_files :: nat
  max_size_kb :: nat
  files :: "ProjectFile list"
  next_id :: nat

datatype quota_dimension = FileCount | SizeBytes

text \<open>
  Modelled from the spec: the error taxonomy of section 7. The specification has a path
  with a \<open>..\<close> segment rejected and names no error for it; it is \<open>InvalidPath\<close> here.
\<close>

datatype tree_error =
  PathConflict
  | InvalidParent
  | CycleDetected
  | QuotaExceeded quota_dimension
  | NotFound
  | InvalidPath

record ProjectFileCreate =
  req_name :: string
  req_path :: string
  req_type :: file_type
  req_content :: "string option"
  req_parent_id :: "nat option"

definition normalize_path :: "string \<Rightarrow> string list option" where
  \<comment> \<open>Modelled from the spec: path normalization (section 4.1) collapses redundant
      separators and rejects \<open>..\<close> segments\<close>
  "normalize_path p =
     (let segs = filter (\<lambda>s. s \<noteq> []) (split_on (CHR ''/'') p)
      in if ''..'' \<in> set segs then None else Some segs)"

definition total_files :: "Project \<Rightarrow> nat" where
  \<comment> \<open>Modelled from the spec: \<open>computeUsage\<close> (section 4.2) counts the entries of type file;
      whether directories count is left open there, and here they do not\<close>
  "total_files p = length (filter (\<lambda>f. ftype f = File) (files p))"

definition total_size_bytes :: "Project \<Rightarrow> nat" where
  \<comment> \<open>Modelled from the spec: the aggregate size is the sum of \<open>size_bytes\<close> over the entries
      of type file (section 3)\<close>
  "total_size_bytes p = sum_list (map size_bytes (filter (\<lambda>f. ftype f = File) (files p)))"

definition authorize :: "Project \<Rightarrow> nat \<Rightarrow> nat \<Rightarrow> tree_error option" where
  \<comment> \<open>Modelled from the spec: \<open>authorize(project_id, delta_files, delta_bytes)\<close> (section 4.2)
      succeeds (\<open>None\<close>) or names the dimension that would be exceeded\<close>
  "authorize p delta_files delta_bytes =
     (if max_files p < total_files p + delta_files then Some (QuotaExceeded FileCount)
      else if max_size_kb p * 1024 < total_size_bytes p + delta_bytes
      then Some (QuotaExceeded SizeBytes)
      else None)"

definition find_file :: "Project \<Rightarrow> nat \<Rightarrow> ProjectFile option" where
  \<comment> \<open>Modelled from the spec: \<open>get(project_id, file_id)\<close>, \<open>None\<close> for \<open>NotFound\<close>\<close>
  "find_file p i = find (\<lambda>f. file_id f = i) (files p)"

definition valid_parent :: "Project \<Rightarrow> nat option \<Rightarrow> bool" where
  \<comment> \<open>Modelled from the spec: a parent is the project root (\<open>None\<close>) or an existing entry of
      type directory (section 3)\<close>
  "valid_parent p parent =
     (case parent of
        None \<Rightarrow> True
      | Some i \<Rightarrow> (case find_file p i of None \<Rightarrow> False | Some d \<Rightarrow> ftype d = Directory))"

definition store_write :: "Project \<Rightarrow> ProjectFile list \<Rightarrow> tree_error + Project" where
  \<comment> \<open>Modelled from the spec: the entity store enforces the unique constraint on (project,
      path) (section 6), so a write that would leave two entries with one path fails as a
      whole; the failure is reported as \<open>PathConflict\<close>\<close>
  "store_write p fs =
     (if distinct (map path fs) then Inr (p\<lparr>files := fs\<rparr>) else Inl PathConflict)"

definition entry_size :: "ProjectFileCreate \<Rightarrow> nat" where
  \<comment> \<open>Modelled from the spec: the size of a new entry is the byte length of its content, and
      0 for a directory (section 3)\<close>
  "entry_size req =
     (case req_type req of
        Directory \<Rightarrow> 0
      | File \<Rightarrow> (case req_content req of None \<Rightarrow> 0 | Some c \<Rightarrow> length c))"

definition entry_count :: "ProjectFileCreate \<Rightarrow> nat" where
  \<comment> \<open>Modelled from the spec: what a new entry adds to the file count\<close>
  "entry_count req = (case req_type req of Directory \<Rightarrow> 0 | File \<Rightarrow> 1)"

definition create ::
  "Project \<Rightarrow> ProjectFileCreate \<Rightarrow> (tree_error + ProjectFile) \<times> Project" where
  \<comment> \<open>Modelled from the spec: \<open>create\<close> (section 4.1). The quota enforcer authorizes the
      mutation first (section 4.2); then come the path, the conflict and the parent. The
      result is the new entry or the error, with the project afterwards.\<close>
  "create p req =
     (case authorize p (entry_count req) (entry_size req) of
        Some e \<Rightarrow> (Inl e, p)
      | None \<Rightarrow>
          (case normalize_path (req_path req) of
             None \<Rightarrow> (Inl InvalidPath, p)
           | Some np \<Rightarrow>
               if np \<in> set (map path (files p)) then (Inl PathConflict, p)
               else if \<not> valid_parent p (req_parent_id req) then (Inl InvalidParent, p)
               else
                 (let f = \<lparr>file_id = next_id p, parent_id = req_parent_id req,
                           name = req_name req, path = np, ftype = req_type req,
                           file_content =
                             (case req_type req of
                                Directory \<Rightarrow> None | File \<Rightarrow> req_content req),
                           size_bytes = entry_size req\<rparr>
                  in case store_write p (files p @ [f]) of
                       Inl e \<Rightarrow> (Inl e, p)
                     | Inr p' \<Rightarrow> (Inr f, p'\<lparr>next_id := Suc (next_id p)\<rparr>))))"










definition new_project :: "nat \<Rightarrow> nat \<Rightarrow> Project" where
  \<comment> \<open>a project without entries, with the two limits\<close>
  "new_project mf ms = \<lparr>max_files = mf, max_size_kb = ms, files = [], next_id = 1\<rparr>"

definition file_request :: "string \<Rightarrow> string \<Rightarrow> string \<Rightarrow> ProjectFileCreate" where
  \<comment> \<open>the request to create a file at the root of the project\<close>
  "file_request n p c =
     \<lparr>req_name = n, req_path = p, req_type = File, req_content = Some c,
      req_parent_id = None\<rparr>"

section \<open>Properties of the code-block extraction\<close>

lemma rendered_code_blocks_append:
  "rendered_code_blocks (ps @ qs) = rendered_code_blocks ps @ rendered_code_blocks qs"
  by (induction ps rule: rendered_code_blocks.induct) simp_all

lemma render_loop_code_blocks:
  "rendered_code_blocks (fst (render_loop str i j k ps)) = extract_loop str i (rendered_code_blocks ps)"
proof (induction str i j k ps rule: render_loop.induct)
  case (1 str reLastIndex lastIndex blockIndex parts)
  show ?case
  proof (cases "exec str reLastIndex")
    case None
    then show ?thesis
      by (simp add: render_loop.simps [of str reLastIndex] extract_loop.simps [of str reLastIndex])
  next
    case (Some m)
    then show ?thesis
      using "1.IH" [OF Some refl refl refl refl]
      by (simp add: render_loop.simps [of str reLastIndex] extract_loop.simps [of str reLastIndex]
          rendered_code_blocks_append Let_def)
  qed
qed








lemma rev_dropWhile_takeWhile_rev:
  "rev (dropWhile P (rev d)) @ rev (takeWhile P (rev d)) = d"
proof -
  have "rev (dropWhile P (rev d)) @ rev (takeWhile P (rev d)) =
        rev (takeWhile P (rev d) @ dropWhile P (rev d))"
    by (simp only: rev_append)
  also have "\<dots> = rev (rev d)" by (simp only: takeWhile_dropWhile_id)
  finally show ?thesis by simp
qed

lemma trim_decompose:
  "\<exists>l r. s = l @ trim s @ r \<and> list_all is_js_space l \<and> list_all is_js_space r"
proof -
  let ?d = "dropWhile is_js_space s"
  let ?l = "takeWhile is_js_space s"
  let ?r = "rev (takeWhile is_js_space (rev ?d))"
  have d: "trim s @ ?r = ?d"
    unfolding trim_def by (rule rev_dropWhile_takeWhile_rev)
  have "s = ?l @ ?d" by simp
  with d have "s = ?l @ trim s @ ?r" by simp
  moreover have "list_all is_js_space ?l"
    by (simp add: list_all_iff) (meson set_takeWhileD)
  moreover have "list_all is_js_space ?r"
    by (simp add: list_all_iff) (meson set_takeWhileD)
  ultimately show ?thesis by blast
qed

lemma trim_no_trailing_space: "\<not> ends_with_space (trim s)"
proof -
  define e where "e = dropWhile is_js_space (rev (dropWhile is_js_space s))"
  have hd: "e \<noteq> [] \<Longrightarrow> \<not> is_js_space (hd e)"
    unfolding e_def by (rule hd_dropWhile)
  have "trim s = rev e" by (simp add: trim_def e_def)
  then have "ends_with_space (trim s) = starts_with_space e"
    by (simp add: ends_with_space_def)
  with hd show ?thesis
    by (cases e) (simp_all add: starts_with_space_def)
qed

lemma trim_no_leading_space: "\<not> starts_with_space (trim s)"
proof (cases "trim s")
  case Nil
  then show ?thesis by (simp add: starts_with_space_def)
next
  case (Cons c cs)
  define d where "d = dropWhile is_js_space s"
  have hd: "d \<noteq> [] \<Longrightarrow> \<not> is_js_space (hd d)"
    unfolding d_def by (rule hd_dropWhile)
  have "trim s @ rev (takeWhile is_js_space (rev d)) = d"
    unfolding trim_def d_def by (rule rev_dropWhile_takeWhile_rev)
  with Cons have "d = c # cs @ rev (takeWhile is_js_space (rev d))" by simp
  then have "d \<noteq> []" and "hd d = c" by (metis list.distinct(1), metis list.sel(1))
  with hd have "\<not> is_js_space c" by simp
  with Cons show ?thesis by (simp add: starts_with_space_def)
qed

lemma match_here_group1:
  "match_here s = Some (m0, g1, g2) \<Longrightarrow> g1 \<noteq> Some []"
  by (auto simp: match_here_def Let_def split: if_splits list.splits option.splits)

lemma search_group1:
  "search s = Some (k, m0, g1, g2) \<Longrightarrow> g1 \<noteq> Some []"
proof (induction s arbitrary: k)
  case Nil
  then show ?case by simp
next
  case (Cons c cs)
  show ?case
  proof (cases "match_here (c # cs)")
    case (Some m)
    with Cons.prems have "match_here (c # cs) = Some (m0, g1, g2)" by simp
    then show ?thesis by (rule match_here_group1)
  next
    case None
    with Cons.prems obtain k' where "search cs = Some (k', m0, g1, g2)" by auto
    then show ?thesis by (rule Cons.IH)
  qed
qed

lemma exec_group1:
  "exec str i = Some m \<Longrightarrow> group1 m \<noteq> Some []"
  by (auto simp: exec_def split: if_splits option.splits dest: search_group1)

lemma extract_loop_matches:
  "extract_loop str i acc =
   acc @ map (\<lambda>m. \<lparr>language = js_or (group1 m) ''plaintext'', code = trim (group2 m)\<rparr>)
           (matches str i)"
proof (induction str i arbitrary: acc rule: matches.induct)
  case (1 str lastIndex)
  show ?case
  proof (cases "exec str lastIndex")
    case None
    then show ?thesis
      by (simp add: extract_loop.simps [of str lastIndex] matches.simps [of str lastIndex])
  next
    case (Some m)
    then show ?thesis
      using "1.IH" [OF Some]
      by (simp add: extract_loop.simps [of str lastIndex] matches.simps [of str lastIndex])
  qed
qed

lemma matches_group1:
  "m \<in> set (matches str i) \<Longrightarrow> group1 m \<noteq> Some []"
proof (induction str i rule: matches.induct)
  case (1 str lastIndex)
  show ?case
  proof (cases "exec str lastIndex")
    case None
    with "1.prems" show ?thesis by (simp add: matches.simps [of str lastIndex])
  next
    case (Some m')
    with "1.prems" have "m = m' \<or> m \<in> set (matches str (index m' + length (match0 m')))"
      by (simp add: matches.simps [of str lastIndex])
    then show ?thesis
      using exec_group1 [OF Some] "1.IH" [OF Some] by blast
  qed
qed



text \<open>
  Claim C8. The (language, code) pairs that \<open>renderMessageContent\<close> renders as code blocks,
  in order, are the list that \<open>extractCodeBlocks\<close> returns on the content of the message:
  both loops run the same pattern, trim the body and default the language to \<open>plaintext\<close>.
\<close>

theorem renderMessageContent_code_blocks:
  "rendered_code_blocks (renderMessageContent message) = extractCodeBlocks (content message)"
proof -
  obtain parts lastIndex where r: "render_loop (content message) 0 0 0 [] = (parts, lastIndex)"
    by (cases "render_loop (content message) 0 0 0 []")
  from render_loop_code_blocks [of "content message" 0 0 0 "[]"] r
  have "rendered_code_blocks parts = extract_loop (content message) 0 []" by simp
  with r show ?thesis
    by (simp add: renderMessageContent_def extractCodeBlocks_def rendered_code_blocks_append)
qed

text \<open>
  Claim C10. For every block that \<open>extractCodeBlocks\<close> matches, in order: without a language
  tag the returned language is \<open>plaintext\<close> (and with a tag it is the tag); the returned code
  is the body with its leading and trailing whitespace removed, so the body is whitespace,
  then the code, then whitespace, and the code neither starts nor ends with whitespace.
\<close>

theorem extractCodeBlocks_plaintext_trimmed:
  "list_all2
     (\<lambda>m b. (group1 m = None \<longrightarrow> language b = ''plaintext'') \<and>
            (\<forall>tag. group1 m = Some tag \<longrightarrow> language b = tag) \<and>
            code b = trim (group2 m) \<and>
            (\<exists>l r. group2 m = l @ code b @ r \<and> list_all is_js_space l \<and> list_all is_js_space r) \<and>
            \<not> starts_with_space (code b) \<and> \<not> ends_with_space (code b))
     (matches str 0) (extractCodeBlocks str)"
proof -
  have "extractCodeBlocks str =
        map (\<lambda>m. \<lparr>language = js_or (group1 m) ''plaintext'', code = trim (group2 m)\<rparr>)
            (matches str 0)"
    using extract_loop_matches [of str 0 "[]"] by (simp add: extractCodeBlocks_def)
  moreover have "\<forall>m\<in>set (matches str 0). group1 m \<noteq> Some []"
    using matches_group1 by blast
  ultimately show ?thesis
    using trim_decompose trim_no_leading_space trim_no_trailing_space
    by (auto simp: list_all2_map2 list_all2_same js_or_def)
qed

theorem extractCodeBlocks_plaintext_trimmed_witness:
  "matches ''a```\<newline>  x = 1  \<newline>``` b ```py\<newline>y```'' 0 =
     [\<lparr>index = 1, match0 = ''```\<newline>  x = 1  \<newline>```'', group1 = None,
       group2 = ''  x = 1  \<newline>''\<rparr>,
      \<lparr>index = 21, match0 = ''```py\<newline>y```'', group1 = Some ''py'', group2 = ''y''\<rparr>] \<and>
   extractCodeBlocks ''a```\<newline>  x = 1  \<newline>``` b ```py\<newline>y```'' =
     [\<lparr>language = ''plaintext'', code = ''x = 1''\<rparr>, \<lparr>language = ''py'', code = ''y''\<rparr>]"
proof -
  let ?s = "''a```\<newline>  x = 1  \<newline>``` b ```py\<newline>y```''"
  have ms: "matches ?s 0 =
     [\<lparr>index = 1, match0 = ''```\<newline>  x = 1  \<newline>```'', group1 = None,
       group2 = ''  x = 1  \<newline>''\<rparr>,
      \<lparr>index = 21, match0 = ''```py\<newline>y```'', group1 = Some ''py'', group2 = ''y''\<rparr>]"
    by (simp add: matches.simps exec_def match_here_def fence_def is_word_char_def)
  from extractCodeBlocks_plaintext_trimmed [of ?s]
  obtain b1 b2 where bs: "extractCodeBlocks ?s = [b1, b2]"
    and b1: "language b1 = ''plaintext''" "code b1 = trim ''  x = 1  \<newline>''"
    and b2: "language b2 = ''py''" "code b2 = trim ''y''"
    unfolding ms by (auto simp: list_all2_Cons1)
  have "b1 = \<lparr>language = ''plaintext'', code = ''x = 1''\<rparr>"
    using b1 by (cases b1) (simp add: trim_def is_js_space_def)
  moreover have "b2 = \<lparr>language = ''py'', code = ''y''\<rparr>"
    using b2 by (cases b2) (simp add: trim_def is_js_space_def)
  ultimately show ?thesis using ms bs by simp
qed

section \<open>Properties of the code optimizer\<close>

lemma split_on_nonempty: "split_on sep s \<noteq> []"
  by (induction s) (auto split: list.splits)

lemma length_split_on: "length (split_on sep s) = Suc (length (filter (\<lambda>c. c = sep) s))"
  using split_on_nonempty [of sep]
  by (induction s) (auto split: list.splits)

lemma join_Cons: "ys \<noteq> [] \<Longrightarrow> join sep (x # ys) = x @ sep @ join sep ys"
  by (cases ys) auto

lemma join_split_on: "join [sep] (split_on sep s) = s"
proof (induction s)
  case Nil
  show ?case by simp
next
  case (Cons c cs)
  obtain l ls where sp: "split_on sep cs = l # ls"
    using split_on_nonempty [of sep cs] by (cases "split_on sep cs") auto
  with Cons show ?case
    by (cases ls) auto
qed

text \<open>
  Claim C9. For every string and every positive \<open>maxLines\<close>, \<open>truncateLargeFile\<close> returns as
  \<open>totalLines\<close> the number of newline-separated lines of the content (one more than the
  number of line feeds; joined by line feeds the lines give the content back). When that
  number is at most \<open>maxLines\<close> the content is returned unchanged with \<open>truncated = false\<close>;
  otherwise the result is exactly the first \<open>maxLines\<close> lines joined by line feeds, with
  \<open>truncated = true\<close>.
\<close>

theorem truncateLargeFile_lines:
  assumes "0 < maxLines"
  shows "totalLines (truncateLargeFile str (Some maxLines)) = length (split_on (CHR 0x0A) str) \<and>
         length (split_on (CHR 0x0A) str) = Suc (length (filter (\<lambda>c. c = CHR 0x0A) str)) \<and>
         join [CHR 0x0A] (split_on (CHR 0x0A) str) = str \<and>
         (int (length (split_on (CHR 0x0A) str)) \<le> maxLines \<longrightarrow>
            TruncateResult.content (truncateLargeFile str (Some maxLines)) = str \<and>
            \<not> truncated (truncateLargeFile str (Some maxLines))) \<and>
         (maxLines < int (length (split_on (CHR 0x0A) str)) \<longrightarrow>
            TruncateResult.content (truncateLargeFile str (Some maxLines)) =
              join [CHR 0x0A] (take (nat maxLines) (split_on (CHR 0x0A) str)) \<and>
            truncated (truncateLargeFile str (Some maxLines)))"
  using assms
  by (simp add: truncateLargeFile_def Let_def array_slice0_def length_split_on join_split_on)

theorem truncateLargeFile_lines_witness:
  "(0::int) < 2 \<and>
   truncateLargeFile ''a\<newline>b\<newline>c'' (Some 2) =
     \<lparr>TruncateResult.content = ''a\<newline>b'', truncated = True, totalLines = 3\<rparr> \<and>
   truncateLargeFile ''a\<newline>b'' (Some 2) =
     \<lparr>TruncateResult.content = ''a\<newline>b'', truncated = False, totalLines = 2\<rparr>"
proof -
  have pos: "(0::int) < 2" by simp
  have sp: "split_on (CHR 0x0A) ''a\<newline>b\<newline>c'' = [''a'', ''b'', ''c'']"
    and sp': "split_on (CHR 0x0A) ''a\<newline>b'' = [''a'', ''b'']" by simp_all
  from truncateLargeFile_lines [OF pos, of "''a\<newline>b\<newline>c''"]
  have "truncateLargeFile ''a\<newline>b\<newline>c'' (Some 2) =
     \<lparr>TruncateResult.content = ''a\<newline>b'', truncated = True, totalLines = 3\<rparr>"
    unfolding sp by (cases "truncateLargeFile ''a\<newline>b\<newline>c'' (Some 2)") simp
  moreover from truncateLargeFile_lines [OF pos, of "''a\<newline>b''"]
  have "truncateLargeFile ''a\<newline>b'' (Some 2) =
     \<lparr>TruncateResult.content = ''a\<newline>b'', truncated = False, totalLines = 2\<rparr>"
    unfolding sp' by (cases "truncateLargeFile ''a\<newline>b'' (Some 2)") simp
  ultimately show ?thesis by simp
qed

text \<open>
  What holds of \<open>detectLanguage\<close>: the result depends on the file name only through the
  lower-cased text after its last dot; an extension of the table gives the listed language;
  and an extension outside the table gives what \<open>Object.prototype\<close> holds under that name,
  which is \<open>undefined\<close> for every name but the inherited ones.
\<close>

lemma detectLanguage_same_extension:
  "toLowerCase (last (split_on (CHR ''.'') f)) = toLowerCase (last (split_on (CHR ''.'') g)) \<Longrightarrow>
   detectLanguage f = detectLanguage g"
  by (simp add: detectLanguage_def)

lemma languageMap_entries:
  "\<forall>(k, l) \<in> set languageMap. k \<noteq> [] \<and> l \<noteq> []"
  by (simp add: languageMap_def)

lemma detectLanguage_in_table:
  assumes "map_of languageMap (toLowerCase (last (split_on (CHR ''.'') f))) = Some l"
  shows "detectLanguage f = Some (Language l)"
proof -
  let ?e = "toLowerCase (last (split_on (CHR ''.'') f))"
  from assms have "(?e, l) \<in> set languageMap" by (rule map_of_SomeD)
  with languageMap_entries have "?e \<noteq> []" and "l \<noteq> []" by blast+
  with assms show ?thesis
    by (simp add: detectLanguage_def js_or_def languageMap_get_def lang_truthy_def)
qed

lemma detectLanguage_outside_table:
  assumes "map_of languageMap (toLowerCase (last (split_on (CHR ''.'') f))) = None"
  shows "detectLanguage f =
         map_option Inherited (map_of object_prototype (toLowerCase (last (split_on (CHR ''.'') f))))"
proof -
  let ?e = "toLowerCase (last (split_on (CHR ''.'') f))"
  show ?thesis
  proof (cases "?e = []")
    case True
    with assms have "map_of languageMap [] = None" by simp
    with True show ?thesis
      by (simp add: detectLanguage_def js_or_def languageMap_get_def lang_truthy_def
          object_prototype_def)
  next
    case False
    with assms show ?thesis
      by (cases "map_of object_prototype ?e")
        (simp_all add: detectLanguage_def js_or_def languageMap_get_def lang_truthy_def)
  qed
qed

lemma detectLanguage_examples:
  "detectLanguage ''main.py'' = Some (Language ''python'') \<and>
   detectLanguage ''src/App.TS'' = Some (Language ''typescript'') \<and>
   detectLanguage ''Makefile'' = None \<and>
   detectLanguage ''archive.tar.gz'' = None"
  by code_simp

text \<open>
  Claim C7 says that every extension outside the fixed table yields \<open>undefined\<close>. The
  extension \<open>constructor\<close> is not in the table, and \<open>detectLanguage\<close> returns for it the
  function \<open>Object\<close> that the object literal inherits from \<open>Object.prototype\<close>, not
  \<open>undefined\<close> and not a language name.
\<close>

theorem detectLanguage_inherited_constructor:
  "map_of languageMap ''constructor'' = None \<and>
   detectLanguage ''main.constructor'' = Some (Inherited ''Object'') \<and>
   detectLanguage ''main.constructor'' \<noteq> None"
  by (simp add: detectLanguage_def toLowerCase_def lower_char_def js_or_def languageMap_get_def
      languageMap_def object_prototype_def lang_truthy_def)

section \<open>Properties of the streamed answer\<close>








lemma read_loop_example:
  \<open>content (fst (read_loop parse_hi
      [''data: {"cont'', ''ent":"hi"}\<newline>\<newline>data: {"content":"hi"}\<newline>'', ''\<newline>''] []
      (\<lparr>msg_id = ''temp-assistant'', session_id = ''s1'', role = Assistant, content = [],
        file_references = None, code_blocks = None, token_count = None, created_at = []\<rparr>,
       []))) = ''hihi''\<close>
  by (simp add: process_line_def parse_hi_def js_or_def)


section \<open>Properties of the error handler\<close>

lemma filter_map_same:
  "\<forall>m\<in>set xs. (P m \<longrightarrow> f m = m) \<and> (\<not> P m \<longrightarrow> \<not> P (f m)) \<Longrightarrow>
   filter P (map f xs) = filter P xs"
  by (induction xs) auto

lemma process_line_keeps:
  assumes "msg_id (fst s) = ''temp-assistant''"
  shows "msg_id (fst (process_line parse line s)) = ''temp-assistant''"
    and "filter (\<lambda>m. \<not> prefix ''temp-'' (msg_id m)) (snd (process_line parse line s)) =
         filter (\<lambda>m. \<not> prefix ''temp-'' (msg_id m)) (snd s)"
proof -
  obtain am msgs where s: "s = (am, msgs)" by (cases s)
  with assms have am: "msg_id am = ''temp-assistant''" by simp
  show "msg_id (fst (process_line parse line s)) = ''temp-assistant''"
    using am by (simp add: s process_line_def Let_def split: option.splits)
  have "\<And>am'. msg_id am' = ''temp-assistant'' \<Longrightarrow>
        filter (\<lambda>m. \<not> prefix ''temp-'' (msg_id m))
          (map (\<lambda>m. if msg_id m = ''temp-assistant'' then am' else m) msgs) =
        filter (\<lambda>m. \<not> prefix ''temp-'' (msg_id m)) msgs"
    by (rule filter_map_same) auto
  then show "filter (\<lambda>m. \<not> prefix ''temp-'' (msg_id m)) (snd (process_line parse line s)) =
         filter (\<lambda>m. \<not> prefix ''temp-'' (msg_id m)) (snd s)"
    using am by (simp add: s process_line_def Let_def split: option.splits)
qed

lemma foldl_process_line_keeps:
  "msg_id (fst s) = ''temp-assistant'' \<Longrightarrow>
   msg_id (fst (foldl (\<lambda>s line. process_line parse line s) s ls)) = ''temp-assistant'' \<and>
   filter (\<lambda>m. \<not> prefix ''temp-'' (msg_id m))
     (snd (foldl (\<lambda>s line. process_line parse line s) s ls)) =
   filter (\<lambda>m. \<not> prefix ''temp-'' (msg_id m)) (snd s)"
  by (induction ls arbitrary: s) (simp_all add: process_line_keeps)

lemma read_loop_keeps:
  "msg_id (fst s) = ''temp-assistant'' \<Longrightarrow>
   filter (\<lambda>m. \<not> prefix ''temp-'' (msg_id m)) (snd (read_loop parse chunks buffer s)) =
   filter (\<lambda>m. \<not> prefix ''temp-'' (msg_id m)) (snd s)"
proof (induction chunks arbitrary: buffer s)
  case Nil
  show ?case by simp
next
  case (Cons v chunks)
  let ?lines = "split_on (CHR 0x0A) (buffer @ v)"
  let ?s' = "foldl (\<lambda>s line. process_line parse line s) s (butlast ?lines)"
  from foldl_process_line_keeps [OF Cons.prems, of parse "butlast ?lines"]
  have id: "msg_id (fst ?s') = ''temp-assistant''"
    and f: "filter (\<lambda>m. \<not> prefix ''temp-'' (msg_id m)) (snd ?s') =
            filter (\<lambda>m. \<not> prefix ''temp-'' (msg_id m)) (snd s)"
    by simp_all
  have "read_loop parse (v # chunks) buffer s = read_loop parse chunks (last ?lines) ?s'"
    by (simp add: Let_def js_or_def)
  with Cons.IH [OF id, of "last ?lines"] f show ?case by simp
qed

lemma not_temp_user:
  "(i \<noteq> ''temp-user'' \<and> \<not> prefix ''temp-'' i) = (\<not> prefix ''temp-'' i)"
  by auto

text \<open>
  Claim C5, as amended. When \<open>sendMessage\<close> has passed its guard and the request fails (the
  call rejects, the response has no body, or a read rejects in the middle of the stream),
  the handler shows the one toast for a failed send, the same for every failure, and
  removes the temporary messages: afterwards no message has an id that starts with
  \<open>temp-\<close>, the list is the one before the call without such messages, and \<open>isSending\<close> is
  false.
\<close>

theorem sendMessage_failure_rollback:
  assumes "trim (input st) \<noteq> []" and "currentSessionId st = Some sid" and "sid \<noteq> []"
    and "\<not> isSending st"
    and "fetch = FetchRejected \<or> fetch = NoBody \<or> (\<exists>chunks. fetch = Body chunks ReadFailed)"
  shows "(\<forall>m\<in>set (messages (sendMessage parse now1 now2 fetch session st)).
            \<not> prefix ''temp-'' (msg_id m)) \<and>
         messages (sendMessage parse now1 now2 fetch session st) =
           filter (\<lambda>m. \<not> prefix ''temp-'' (msg_id m)) (messages st) \<and>
         toasts (sendMessage parse now1 now2 fetch session st) = toasts st @ [SendFailed] \<and>
         \<not> isSending (sendMessage parse now1 now2 fetch session st)"
proof -
  have guard: "\<not> (trim (input st) = [] \<or> js_or (currentSessionId st) [] = [] \<or> isSending st)"
    using assms(1-4) by (simp add: js_or_def)
  from assms(5) consider "fetch = FetchRejected" | "fetch = NoBody"
    | chunks where "fetch = Body chunks ReadFailed" by blast
  then have "messages (sendMessage parse now1 now2 fetch session st) =
           filter (\<lambda>m. \<not> prefix ''temp-'' (msg_id m)) (messages st) \<and>
         toasts (sendMessage parse now1 now2 fetch session st) = toasts st @ [SendFailed] \<and>
         \<not> isSending (sendMessage parse now1 now2 fetch session st)"
  proof cases
    case 1
    with guard show ?thesis
      by (simp add: sendMessage_def Let_def catch_handler_def)
  next
    case 2
    with guard show ?thesis
      by (simp add: sendMessage_def Let_def catch_handler_def not_temp_user)
  next
    case 3
    with guard show ?thesis
      by (simp add: sendMessage_def Let_def catch_handler_def read_loop_keeps not_temp_user)
  qed
  then show ?thesis by auto
qed

theorem sendMessage_failure_rollback_witness:
  \<open>sendMessage parse_hi ''t1'' ''t2'' (Body [''data: {"content":"hi"}\<newline>''] ReadFailed) None st0 =
     \<lparr>messages = [], input = [], isLoading = False, isSending = False,
      currentSessionId = Some ''s1'', toasts = [SendFailed]\<rparr>\<close>
proof -
  have g: "trim (input st0) \<noteq> []" "currentSessionId st0 = Some ''s1''" "''s1'' \<noteq> []"
    "\<not> isSending st0"
    by (simp_all add: st0_def trim_def is_js_space_def)
  have f: \<open>Body [''data: {"content":"hi"}\<newline>''] ReadFailed = FetchRejected \<or>
           Body [''data: {"content":"hi"}\<newline>''] ReadFailed = NoBody \<or>
           (\<exists>chunks. Body [''data: {"content":"hi"}\<newline>''] ReadFailed = Body chunks ReadFailed)\<close>
    by simp
  let ?st = \<open>sendMessage parse_hi ''t1'' ''t2'' (Body [''data: {"content":"hi"}\<newline>''] ReadFailed) None st0\<close>
  from sendMessage_failure_rollback [OF g f, of parse_hi "''t1''" "''t2''" None]
  have "messages ?st = []" and "toasts ?st = [SendFailed]" and "\<not> isSending ?st"
    by (simp_all add: st0_def)
  moreover have "input ?st = []" and "isLoading ?st = False" and "currentSessionId ?st = Some ''s1''"
    by (simp_all add: sendMessage_def st0_def trim_def is_js_space_def js_or_def Let_def catch_handler_def)
  ultimately show ?thesis by (cases ?st) simp
qed

text \<open>
  Claim C5 as stated has the failure surfaced as a distinct condition. The handler leaves
  the same state, with the same toast, after a read that fails in the middle of the stream,
  after a response without a body and after a rejected request: nothing tells them apart.
\<close>

theorem upstream_failure_not_distinct_counterexample:
  \<open>sendMessage parse_hi ''t1'' ''t2'' (Body [''data: {"content":"hi"}\<newline>''] ReadFailed) None st0 =
   sendMessage parse_hi ''t1'' ''t2'' NoBody None st0 \<and>
   sendMessage parse_hi ''t1'' ''t2'' (Body [''data: {"content":"hi"}\<newline>''] ReadFailed) None st0 =
   sendMessage parse_hi ''t1'' ''t2'' FetchRejected None st0 \<and>
   toasts (sendMessage parse_hi ''t1'' ''t2'' (Body [''data: {"content":"hi"}\<newline>''] ReadFailed) None st0) =
     [SendFailed]\<close>
  by (simp add: sendMessage_def st0_def trim_def is_js_space_def js_or_def Let_def catch_handler_def
      process_line_def parse_hi_def)

section \<open>Properties of the API client\<close>





section \<open>Properties of the file tree manager\<close>










text \<open>
  Claim C3. \<open>create\<close> fails with \<open>QuotaExceeded\<close> whenever the new entry would take the
  project over \<open>max_files\<close> or over \<open>max_size_kb\<close>, computed from the existing aggregate and
  the size of the new entry; a failed \<open>create\<close> leaves the project as it was; and in a
  project with \<open>max_files = 2\<close> and no entries, creating a first and a second file succeeds
  and creating a third fails with \<open>QuotaExceeded\<close>.
\<close>

theorem create_quota:
  "(max_files p < total_files p + entry_count req \<or>
    max_size_kb p * 1024 < total_size_bytes p + entry_size req \<longrightarrow>
      (\<exists>d. create p req = (Inl (QuotaExceeded d), p))) \<and>
   (\<forall>e p'. create p req = (Inl e, p') \<longrightarrow> p' = p) \<and>
   (files p = [] \<and> max_files p = 2 \<and>
    req_type a = File \<and> req_type b = File \<and> req_type c = File \<and>
    req_parent_id a = None \<and> req_parent_id b = None \<and>
    normalize_path (req_path a) = Some pa \<and> normalize_path (req_path b) = Some pb \<and>
    pa \<noteq> pb \<and> entry_size a + entry_size b \<le> max_size_kb p * 1024 \<longrightarrow>
      (\<exists>fa p1 fb p2. create p a = (Inr fa, p1) \<and> create p1 b = (Inr fb, p2) \<and>
         create p2 c = (Inl (QuotaExceeded FileCount), p2)))"
proof (intro conjI impI allI)
  assume "max_files p < total_files p + entry_count req \<or>
    max_size_kb p * 1024 < total_size_bytes p + entry_size req"
  then show "\<exists>d. create p req = (Inl (QuotaExceeded d), p)"
    by (auto simp: create_def authorize_def)
next
  fix e p'
  assume "create p req = (Inl e, p')"
  then show "p' = p"
    by (auto simp: create_def Let_def split: option.splits if_splits sum.splits)
next
  assume h: "files p = [] \<and> max_files p = 2 \<and>
    req_type a = File \<and> req_type b = File \<and> req_type c = File \<and>
    req_parent_id a = None \<and> req_parent_id b = None \<and>
    normalize_path (req_path a) = Some pa \<and> normalize_path (req_path b) = Some pb \<and>
    pa \<noteq> pb \<and> entry_size a + entry_size b \<le> max_size_kb p * 1024"
  define fa where "fa = \<lparr>file_id = next_id p, parent_id = None, name = req_name a, path = pa,
     ftype = File, file_content = req_content a, size_bytes = entry_size a\<rparr>"
  define p1 where "p1 = p\<lparr>files := [fa], next_id := Suc (next_id p)\<rparr>"
  define fb where "fb = \<lparr>file_id = next_id p1, parent_id = None, name = req_name b, path = pb,
     ftype = File, file_content = req_content b, size_bytes = entry_size b\<rparr>"
  define p2 where "p2 = p1\<lparr>files := [fa, fb], next_id := Suc (next_id p1)\<rparr>"
  have 1: "create p a = (Inr fa, p1)"
    using h by (simp add: create_def authorize_def total_files_def total_size_bytes_def
        valid_parent_def store_write_def fa_def p1_def entry_count_def Let_def)
  have 2: "create p1 b = (Inr fb, p2)"
    using h by (auto simp add: create_def authorize_def total_files_def total_size_bytes_def
        valid_parent_def store_write_def fa_def p1_def fb_def p2_def entry_count_def Let_def)
  have 3: "create p2 c = (Inl (QuotaExceeded FileCount), p2)"
    using h by (simp add: create_def authorize_def total_files_def entry_count_def
        fa_def p1_def fb_def p2_def)
  from 1 2 3 show "\<exists>fa p1 fb p2. create p a = (Inr fa, p1) \<and> create p1 b = (Inr fb, p2) \<and>
         create p2 c = (Inl (QuotaExceeded FileCount), p2)"
    by blast
qed

theorem create_quota_witness:
  "create (new_project 2 10) (file_request ''A'' ''/A'' ''a'') =
     (Inr \<lparr>file_id = 1, parent_id = None, name = ''A'', path = [''A''], ftype = File,
           file_content = Some ''a'', size_bytes = 1\<rparr>,
      \<lparr>max_files = 2, max_size_kb = 10,
        files = [\<lparr>file_id = 1, parent_id = None, name = ''A'', path = [''A''], ftype = File,
                  file_content = Some ''a'', size_bytes = 1\<rparr>],
        next_id = 2\<rparr>) \<and>
   (\<exists>fb p2.
      create (snd (create (new_project 2 10) (file_request ''A'' ''/A'' ''a'')))
        (file_request ''B'' ''/B'' ''b'') = (Inr fb, p2) \<and>
      create p2 (file_request ''C'' ''/C'' ''c'') = (Inl (QuotaExceeded FileCount), p2)) \<and>
   create (new_project 2 0) (file_request ''A'' ''/A'' ''a'') =
     (Inl (QuotaExceeded SizeBytes), new_project 2 0)"
proof -
  let ?p = "new_project 2 10"
  let ?a = "file_request ''A'' ''/A'' ''a''"
  let ?b = "file_request ''B'' ''/B'' ''b''"
  let ?c = "file_request ''C'' ''/C'' ''c''"
  have h: "files ?p = [] \<and> max_files ?p = 2 \<and>
    req_type ?a = File \<and> req_type ?b = File \<and> req_type ?c = File \<and>
    req_parent_id ?a = None \<and> req_parent_id ?b = None \<and>
    normalize_path (req_path ?a) = Some [''A''] \<and> normalize_path (req_path ?b) = Some [''B''] \<and>
    [''A''] \<noteq> [''B''] \<and> entry_size ?a + entry_size ?b \<le> max_size_kb ?p * 1024"
    by (simp add: new_project_def file_request_def normalize_path_def entry_size_def)
  from create_quota [of ?p ?a ?a ?b ?c "[''A'']" "[''B'']"] h
  obtain fa p1 fb p2 where c: "create ?p ?a = (Inr fa, p1)" "create p1 ?b = (Inr fb, p2)"
    "create p2 ?c = (Inl (QuotaExceeded FileCount), p2)"
    by blast
  have e: "create ?p ?a =
     (Inr \<lparr>file_id = 1, parent_id = None, name = ''A'', path = [''A''], ftype = File,
           file_content = Some ''a'', size_bytes = 1\<rparr>,
      \<lparr>max_files = 2, max_size_kb = 10,
        files = [\<lparr>file_id = 1, parent_id = None, name = ''A'', path = [''A''], ftype = File,
                  file_content = Some ''a'', size_bytes = 1\<rparr>],
        next_id = 2\<rparr>)"
    by (simp add: create_def authorize_def total_files_def total_size_bytes_def
        valid_parent_def store_write_def new_project_def file_request_def normalize_path_def
        entry_size_def entry_count_def Let_def)
  from c have "create (snd (create ?p ?a)) ?b = (Inr fb, p2)" by simp
  with c(3) have sc: "\<exists>fb p2. create (snd (create ?p ?a)) ?b = (Inr fb, p2) \<and>
      create p2 ?c = (Inl (QuotaExceeded FileCount), p2)"
    by blast
  have "max_files (new_project 2 0) < total_files (new_project 2 0) + entry_count ?a \<or>
        max_size_kb (new_project 2 0) * 1024 < total_size_bytes (new_project 2 0) + entry_size ?a"
    by (simp add: new_project_def file_request_def total_size_bytes_def entry_size_def)
  with create_quota [of "new_project 2 0" ?a]
  obtain d where d: "create (new_project 2 0) ?a = (Inl (QuotaExceeded d), new_project 2 0)"
    by blast
  then have "d = SizeBytes"
    by (simp add: create_def authorize_def total_files_def total_size_bytes_def new_project_def
        file_request_def entry_size_def entry_count_def)
  with d e sc show ?thesis by simp
qed

end
